theory Spec2Isabelle
  imports Main
begin

section \<open>Result codes and nodes\<close>

text \<open>
  Modelled from the spec: the package \<open>types\<close> that declares \<open>ResultCode\<close> and its
  constants is not among the sources. The closed set of codes is an enumeration; the
  constants below are the ones \<open>error.go\<close> and \<open>partitions.go\<close> name on the paths
  embedded here, and \<open>ServerCode\<close> stands for a code forwarded from the server.
  Only their being distinct is used.
\<close>

datatype ResultCode =
    OK
  | COMMON_ERROR
  | TIMEOUT
  | NETWORK_ERROR
  | INVALID_NODE_ERROR
  | PARAMETER_ERROR
  | INVALID_CLUSTER_PARTITION_MAP
  | ServerCode int

text \<open>A \<open>*Node\<close> is a reference; only its identity and its being nil matter here.\<close>

type_synonym node = nat

section \<open>The error value (error.go)\<close>

text \<open>
  The struct \<open>AerospikeError\<close>. The type of the field \<open>wrapped\<close> is a parameter: it is
  an error value where errors are handled as immutable values, and a reference where
  the identity of an instance matters. The field \<open>stackFrames\<close>, filled from
  \<open>runtime.Caller\<close>, is left out: nothing embedded here reads it.
\<close>

datatype 'w AerospikeError =
  AerospikeError (wrapped: 'w) (msg: string) (Node: "node option")
    (ResultCode: ResultCode) (InDoubt: bool) (Iteration: int)

text \<open>
  A value of the interface \<open>error\<close>: nil, a \<open>*AerospikeError\<close>, a
  \<open>*constAerospikeError\<close> (the struct it embeds), or an error of another package,
  which is opaque apart from its text and the error its \<open>Unwrap\<close> returns (nil when
  it wraps nothing). Errors are finite values here, so no chain is cyclic. Not
  modelled: an interface that holds a nil pointer of a concrete type, an error of
  another package with methods \<open>As\<close> or \<open>Unwrap() []error\<close> of its own.
\<close>

datatype error =
    NilErr
  | Ptr "error AerospikeError"
  | ConstPtr "error AerospikeError"
  | Foreign string error

text \<open>\<open>strings.Join(messages, " ")\<close>\<close>

fun join :: "string list \<Rightarrow> string" where
  "join [] = []"
| "join [m] = m"
| "join (m # ms) = m @ '' '' @ join ms"

text \<open>
  \<open>newError\<close>. The table \<open>types.ResultCodeToString\<close> is not among the sources and is
  taken as the parameter \<open>rcToString\<close>.
\<close>

definition newError ::
  "(ResultCode \<Rightarrow> string) \<Rightarrow> ResultCode \<Rightarrow> string list \<Rightarrow> error AerospikeError" where
  "newError rcToString code messages =
     (let messages' = (if length messages = 0 then [rcToString code] else messages)
      in AerospikeError NilErr (join messages') None code False 0)"

text \<open>The mutators: each changes one field of the receiver and returns the receiver.\<close>

definition wrap :: "'w AerospikeError \<Rightarrow> 'w \<Rightarrow> 'w AerospikeError" where
  "wrap ase e = AerospikeError e (msg ase) (Node ase) (ResultCode ase) (InDoubt ase) (Iteration ase)"

definition setInDoubt :: "'w AerospikeError \<Rightarrow> bool \<Rightarrow> bool \<Rightarrow> 'w AerospikeError" where
  "setInDoubt ase isRead commandWasSent =
     (if \<not> isRead \<and> commandWasSent
      then AerospikeError (wrapped ase) (msg ase) (Node ase) (ResultCode ase) True (Iteration ase)
      else ase)"

definition setNode :: "'w AerospikeError \<Rightarrow> node option \<Rightarrow> 'w AerospikeError" where
  "setNode ase nd = AerospikeError (wrapped ase) (msg ase) nd (ResultCode ase) (InDoubt ase) (Iteration ase)"

definition markInDoubt :: "'w AerospikeError \<Rightarrow> bool \<Rightarrow> 'w AerospikeError" where
  "markInDoubt ase v = AerospikeError (wrapped ase) (msg ase) (Node ase) (ResultCode ase) v (Iteration ase)"

definition IsInDoubt :: "'w AerospikeError \<Rightarrow> bool" where
  "IsInDoubt ase = InDoubt ase"

definition newCommonError ::
  "(ResultCode \<Rightarrow> string) \<Rightarrow> error \<Rightarrow> string list \<Rightarrow> error AerospikeError" where
  "newCommonError rcToString e messages = wrap (newError rcToString COMMON_ERROR messages) e"

text \<open>\<open>Unwrap\<close> of an interface value: the method of the struct, promoted to the constant type.\<close>

fun Unwrap :: "error \<Rightarrow> error" where
  "Unwrap NilErr = NilErr"
| "Unwrap (Ptr ase) = wrapped ase"
| "Unwrap (ConstPtr ase) = wrapped ase"
| "Unwrap (Foreign m e) = e"

text \<open>
  \<open>errors.As(err, &ae)\<close> with \<open>ae\<close> of type \<open>*AerospikeError\<close>, as \<open>Matches\<close> calls it.
  The standard library walks the chain of \<open>err\<close>; at each error it
  \<^enum> returns it if its type is assignable to \<open>*AerospikeError\<close>: so for a
    \<open>*AerospikeError\<close> only, a \<open>*constAerospikeError\<close> is another type;
  \<^enum> else calls its method \<open>As(target)\<close> if it has one: the promoted method
    \<open>AerospikeError.As\<close> asserts \<open>target.(*AerospikeError)\<close>, the target here is a
    \<open>**AerospikeError\<close>, so the assertion fails and the method returns false;
  \<^enum> else goes on with \<open>Unwrap()\<close>, and stops with false at nil.

  \<open>target\<close> is the type of the value that the method \<open>As\<close> is given; where the
  assertion holds the method copies the fields into the target and returns true.
\<close>

datatype target = PtrAerospikeError | PtrPtrAerospikeError

definition As :: "'w AerospikeError \<Rightarrow> target \<Rightarrow> bool" where
  "As ase t = (case t of PtrAerospikeError \<Rightarrow> True | PtrPtrAerospikeError \<Rightarrow> False)"

fun errors_As :: "error \<Rightarrow> error AerospikeError option" where
  "errors_As NilErr = None"
| "errors_As (Ptr ase) = Some ase"
| "errors_As (ConstPtr (AerospikeError w m n rc d i)) =
     (if As (AerospikeError w m n rc d i) PtrPtrAerospikeError
      then Some (AerospikeError w m n rc d i) else errors_As w)"
| "errors_As (Foreign m e) = errors_As e"

text \<open>
  \<open>Matches\<close>, with the receiver a possibly nil \<open>*AerospikeError\<close> and the variadic
  \<open>rcs\<close> a list. The recursion is on the error that \<open>errors.As\<close> found below
  \<open>wrapped\<close>, which is smaller than the receiver.
\<close>

function Matches :: "error AerospikeError option \<Rightarrow> ResultCode list \<Rightarrow> bool" where
  "Matches None rcs = False"
| "Matches (Some ase) rcs =
     (if length rcs = 0 then False
      else if ResultCode ase \<in> set rcs then True
      else (case errors_As (wrapped ase) of
              Some ae \<Rightarrow> Matches (Some ae) rcs
            | None \<Rightarrow> False))"
  by pat_completeness auto
termination
proof (relation "measure (\<lambda>(e, rcs). case e of None \<Rightarrow> 0 | Some a \<Rightarrow> size_AerospikeError size a)")
  show "wf (measure (\<lambda>(e, rcs). case e of None \<Rightarrow> 0 | Some a \<Rightarrow> size_AerospikeError size a))"
    by simp
next
  fix ase :: "error AerospikeError" and rcs :: "ResultCode list" and x2
  assume found: "errors_As (wrapped ase) = Some x2"
  have below: "errors_As e = Some a \<Longrightarrow> size_AerospikeError size a < size e" for e a
    by (induction e arbitrary: a rule: errors_As.induct) (auto simp: As_def split: if_splits)
  have "size (wrapped ase) < size_AerospikeError size ase"
    by (cases ase) simp
  with below [OF found] show "((Some x2, rcs), Some ase, rcs)
      \<in> measure (\<lambda>(e, rcs). case e of None \<Rightarrow> 0 | Some a \<Rightarrow> size_AerospikeError size a)"
    by simp
qed

text \<open>
  A value of the interface \<open>Error\<close>. Its unexported methods keep it to the two types
  of this package, so it is nil, a \<open>*AerospikeError\<close> or a \<open>*constAerospikeError\<close>.
  \<open>toError\<close> is the conversion to \<open>error\<close> that Go makes silently, \<open>asError\<close> the
  type assertion \<open>inner.(Error)\<close>.
\<close>

datatype Error =
    NilError
  | AE "error AerospikeError"
  | ConstAE "error AerospikeError"

fun toError :: "Error \<Rightarrow> error" where
  "toError NilError = NilErr"
| "toError (AE ase) = Ptr ase"
| "toError (ConstAE c) = ConstPtr c"

fun asError :: "error \<Rightarrow> Error option" where
  "asError NilErr = None"
| "asError (Ptr ase) = Some (AE ase)"
| "asError (ConstPtr c) = Some (ConstAE c)"
| "asError (Foreign m e) = None"

text \<open>
  \<open>newConstError\<close> builds the struct that a \<open>constAerospikeError\<close> embeds, and
  \<open>err\<close> copies it (\<open>v := ase.AerospikeError\<close>), clears \<open>wrapped\<close> on the copy and
  returns the address of the copy.
\<close>

definition newConstError ::
  "(ResultCode \<Rightarrow> string) \<Rightarrow> ResultCode \<Rightarrow> string list \<Rightarrow> error AerospikeError" where
  "newConstError rcToString code messages =
     (let messages' = (if length messages = 0 then [rcToString code] else messages)
      in AerospikeError NilErr (join messages') None code False 0)"

definition err :: "error AerospikeError \<Rightarrow> Error" where
  "err ase = (let v = ase in AE (wrap v NilErr))"

definition ErrInvalidPartitionMap :: "(ResultCode \<Rightarrow> string) \<Rightarrow> error AerospikeError" where
  "ErrInvalidPartitionMap rcToString =
     newConstError rcToString INVALID_CLUSTER_PARTITION_MAP
       [''Partition map errors normally occur when the cluster has partitioned due to network anomaly or node crash, or is not configured properly. Refer to https://www.aerospike.com/docs/operations/configure for more information.'']"

definition ErrTimeout :: "(ResultCode \<Rightarrow> string) \<Rightarrow> error AerospikeError" where
  "ErrTimeout rcToString =
     newConstError rcToString TIMEOUT
       [''command execution timed out on client: See `Policy.Timeout`'']"

text \<open>
  \<open>chainErrors\<close>. The equations are tried in order, as the \<open>if\<close> chain of the source
  is: both nil; \<open>inner\<close> nil; \<open>outer\<close> nil, where an \<open>inner\<close> that is not an \<open>Error\<close>
  is wrapped by \<open>newCommonError\<close>; then the type switch, which copies the struct of
  \<open>outer\<close> (\<open>t := ...; ae = &t\<close>) and sets \<open>wrapped\<close> on the copy. The second test
  \<open>inner == nil\<close> of the source cannot hold where it stands.
\<close>

fun chainErrors :: "(ResultCode \<Rightarrow> string) \<Rightarrow> Error \<Rightarrow> error \<Rightarrow> Error" where
  "chainErrors rcToString NilError NilErr = NilError"
| "chainErrors rcToString outer NilErr = outer"
| "chainErrors rcToString NilError inner =
     (case asError inner of
        Some e \<Rightarrow> e
      | None \<Rightarrow> AE (newCommonError rcToString inner []))"
| "chainErrors rcToString (ConstAE t) inner = AE (wrap t inner)"
| "chainErrors rcToString (AE t) inner = AE (wrap t inner)"

text \<open>
  The spec's words for what \<open>Matches\<close> looks at: the result code of the error and of
  every error in its wrap chain, that is, of every error that repeated \<open>Unwrap\<close>
  reaches. This definition follows the spec, not the code.
\<close>

fun specChainCodes :: "error \<Rightarrow> ResultCode list" where
  "specChainCodes NilErr = []"
| "specChainCodes (Ptr (AerospikeError w m n rc d i)) = rc # specChainCodes w"
| "specChainCodes (ConstPtr (AerospikeError w m n rc d i)) = rc # specChainCodes w"
| "specChainCodes (Foreign m e) = specChainCodes e"

text \<open>No shared constant occurs in a chain.\<close>

fun noConstant :: "error \<Rightarrow> bool" where
  "noConstant NilErr = True"
| "noConstant (Ptr (AerospikeError w m n rc d i)) = noConstant w"
| "noConstant (ConstPtr c) = False"
| "noConstant (Foreign m e) = noConstant e"

text \<open>
  A table of texts for the result codes, used where a concrete one is needed.
\<close>

fun codeName :: "ResultCode \<Rightarrow> string" where
  "codeName OK = ''OK''"
| "codeName COMMON_ERROR = ''COMMON_ERROR''"
| "codeName TIMEOUT = ''TIMEOUT''"
| "codeName NETWORK_ERROR = ''NETWORK_ERROR''"
| "codeName INVALID_NODE_ERROR = ''INVALID_NODE_ERROR''"
| "codeName PARAMETER_ERROR = ''PARAMETER_ERROR''"
| "codeName INVALID_CLUSTER_PARTITION_MAP = ''INVALID_CLUSTER_PARTITION_MAP''"
| "codeName (ServerCode n) = ''SERVER''"

section \<open>Partitions (partitions.go)\<close>

text \<open>
  Modelled from the spec: the constant \<open>_PARTITIONS\<close> is declared in a file that is not
  among the sources; the spec gives the fixed partition count as 4096.
\<close>

definition PARTITIONS :: nat where
  "PARTITIONS = 4096"

text \<open>
  The struct \<open>Partitions\<close> by its contents: the grid of node references, nil being
  \<open>None\<close>, and the regimes.
\<close>

record Partitions =
  Replicas :: "node option list list"
  SCMode :: bool
  regimes :: "int list"

datatype panic = MakeLenOutOfRange | SliceBoundsOutOfRange | IndexOutOfRange

text \<open>\<open>newPartitions\<close>; \<open>make\<close> panics on a negative length.\<close>

definition newPartitions :: "int \<Rightarrow> int \<Rightarrow> bool \<Rightarrow> panic + Partitions" where
  "newPartitions partitionCount replicaCount cpMode =
     (if replicaCount < 0 then Inl MakeLenOutOfRange
      else if partitionCount < 0 then Inl MakeLenOutOfRange
      else Inr \<lparr>Replicas = map (\<lambda>i. replicate (nat partitionCount) None) [0..<nat replicaCount],
                SCMode = cpMode,
                regimes = replicate (nat partitionCount) 0\<rparr>)"

text \<open>
  \<open>setReplicaCount\<close>. The loop appends one fresh row of \<open>_PARTITIONS\<close> nil entries for
  each missing index; the other branch reslices, which panics on a negative bound.
\<close>

function extendReplicas :: "node option list list \<Rightarrow> int \<Rightarrow> int \<Rightarrow> node option list list" where
  "extendReplicas rows i replicaCount =
     (if i < replicaCount then extendReplicas (rows @ [replicate PARTITIONS None]) (i + 1) replicaCount
      else rows)"
  by pat_completeness auto
termination
  by (relation "measure (\<lambda>(rows, i, replicaCount). nat (replicaCount - i))") auto

declare extendReplicas.simps [simp del]

definition setReplicaCount :: "Partitions \<Rightarrow> int \<Rightarrow> panic + Partitions" where
  "setReplicaCount p replicaCount =
     (if int (length (Replicas p)) < replicaCount
      then Inr (p\<lparr>Replicas := extendReplicas (Replicas p) (int (length (Replicas p))) replicaCount\<rparr>)
      else if replicaCount < 0 then Inl SliceBoundsOutOfRange
      else Inr (p\<lparr>Replicas := take (nat replicaCount) (Replicas p)\<rparr>))"

text \<open>Reading \<open>p.Replicas[replica][pIndex]\<close>, with Go's index check.\<close>

definition nodeAt :: "Partitions \<Rightarrow> nat \<Rightarrow> nat \<Rightarrow> panic + node option" where
  "nodeAt p replica pIndex =
     (if replica < length (Replicas p) \<and> pIndex < length (Replicas p ! replica)
      then Inr (Replicas p ! replica ! pIndex)
      else Inl IndexOutOfRange)"

subsection \<open>validate\<close>

text \<open>The verb \<open>%d\<close> of \<open>fmt.Sprintf\<close> on a length or an index: decimal digits.\<close>

definition digit :: "nat \<Rightarrow> char" where
  "digit d = ''0123456789'' ! d"

function itoa :: "nat \<Rightarrow> string" where
  "itoa n = (if n < 10 then [digit n] else itoa (n div 10) @ [digit (n mod 10)])"
  by pat_completeness auto
termination
  by (relation "measure (\<lambda>n. n)") auto

declare itoa.simps [simp del]

text \<open>
  The two \<open>map[string][]int\<close> of \<open>validate\<close>, as lists of entries with the keys in the
  order of their first insertion; \<open>appendAt m k v\<close> is \<open>m[k] = append(m[k], v)\<close>.
  Go ranges over a map in an unspecified order; the model takes this one.
\<close>

type_synonym notDefined = "(string \<times> nat list) list"

fun appendAt :: "notDefined \<Rightarrow> string \<Rightarrow> nat \<Rightarrow> notDefined" where
  "appendAt [] k v = [(k, [v])]"
| "appendAt ((k', l) # m) k v =
     (if k' = k then (k', l @ [v]) # m else (k', l) # appendAt m k v)"

text \<open>The variables that the closure passed to \<open>iterate\<close> updates.\<close>

record vstate =
  masterNodePartitionNotDefined :: notDefined
  replicaNodePartitionNotDefined :: notDefined
  errs :: Error

text \<open>\<open>for pIndex, node := range partitionNodes\<close>\<close>

fun scanNodes :: "string \<Rightarrow> nat \<Rightarrow> nat \<Rightarrow> node option list \<Rightarrow> vstate \<Rightarrow> vstate" where
  "scanNodes nsName replica pIndex [] st = st"
| "scanNodes nsName replica pIndex (node # rest) st =
     scanNodes nsName replica (Suc pIndex) rest
       (if node = None then
          (if replica = 0
           then st\<lparr>masterNodePartitionNotDefined :=
                     appendAt (masterNodePartitionNotDefined st) nsName pIndex\<rparr>
           else st\<lparr>replicaNodePartitionNotDefined :=
                     appendAt (replicaNodePartitionNotDefined st) nsName pIndex\<rparr>)
        else st)"

text \<open>\<open>for replica, partitionNodes := range partition.Replicas\<close>\<close>

fun scanReplicas ::
  "(ResultCode \<Rightarrow> string) \<Rightarrow> string \<Rightarrow> nat \<Rightarrow> node option list list \<Rightarrow> vstate \<Rightarrow> vstate" where
  "scanReplicas rcToString nsName replica [] st = st"
| "scanReplicas rcToString nsName replica (partitionNodes # rest) st =
     (let st1 =
        (if length partitionNodes \<noteq> PARTITIONS
         then st\<lparr>errs := chainErrors rcToString
                (AE (newError rcToString COMMON_ERROR
                  [''Wrong number of partitions for namespace `'' @ nsName @ ''`, replica `''
                   @ itoa replica @ ''`. Must be '' @ itoa PARTITIONS @ '', but found ''
                   @ itoa (length partitionNodes) @ ''.'']))
                (toError (errs st))\<rparr>
         else st)
      in scanReplicas rcToString nsName (Suc replica) rest
           (scanNodes nsName replica 0 partitionNodes st1))"

text \<open>
  The closure, once for each entry of the partition map. The map is given as the list
  of its entries in the order in which \<open>iterate\<close> visits them.
\<close>

type_synonym partitionMap = "(string \<times> Partitions) list"

fun scanNamespaces :: "(ResultCode \<Rightarrow> string) \<Rightarrow> partitionMap \<Rightarrow> vstate \<Rightarrow> vstate" where
  "scanNamespaces rcToString [] st = st"
| "scanNamespaces rcToString ((nsName, partition') # rest) st =
     (let st1 =
        (if length (regimes partition') \<noteq> PARTITIONS
         then st\<lparr>errs := chainErrors rcToString
                (AE (newError rcToString COMMON_ERROR
                  [''Wrong number of regimes for namespace `'' @ nsName @ ''`. Must be ''
                   @ itoa PARTITIONS @ '', but found '' @ itoa (length (regimes partition'))
                   @ ''.'']))
                (toError (errs st))\<rparr>
         else st)
      in scanNamespaces rcToString rest
           (scanReplicas rcToString nsName 0 (Replicas partition') st1))"

text \<open>The two loops that turn the collected indices into errors.\<close>

fun reportMaster :: "(ResultCode \<Rightarrow> string) \<Rightarrow> notDefined \<Rightarrow> Error \<Rightarrow> Error" where
  "reportMaster rcToString [] es = es"
| "reportMaster rcToString ((nsName, partitionList) # rest) es =
     reportMaster rcToString rest
       (chainErrors rcToString
          (AE (newError rcToString COMMON_ERROR
            [''Master partition nodes not defined for namespace `'' @ nsName @ ''`: ''
             @ itoa (length partitionList) @ '' out of '' @ itoa PARTITIONS]))
          (toError es))"

fun reportReplica :: "(ResultCode \<Rightarrow> string) \<Rightarrow> notDefined \<Rightarrow> Error \<Rightarrow> Error" where
  "reportReplica rcToString [] es = es"
| "reportReplica rcToString ((nsName, partitionList) # rest) es =
     reportReplica rcToString rest
       (chainErrors rcToString
          (AE (newError rcToString COMMON_ERROR
            [''Replica partition nodes not defined for namespace `'' @ nsName @ ''`: ''
             @ itoa (length partitionList)]))
          (toError es))"

definition validate :: "(ResultCode \<Rightarrow> string) \<Rightarrow> partitionMap \<Rightarrow> Error" where
  "validate rcToString pm =
     (let st = scanNamespaces rcToString pm
                 \<lparr>masterNodePartitionNotDefined = [], replicaNodePartitionNotDefined = [],
                  errs = NilError\<rparr>
      in if errs st \<noteq> NilError \<or> length (masterNodePartitionNotDefined st) > 0
            \<or> length (replicaNodePartitionNotDefined st) > 0
         then
           (let es1 = reportMaster rcToString (masterNodePartitionNotDefined st) (errs st);
                es2 = reportReplica rcToString (replicaNodePartitionNotDefined st) es1
            in chainErrors rcToString (err (ErrInvalidPartitionMap rcToString)) (toError es2))
         else NilError)"

text \<open>Both maps of \<open>validate\<close> are empty.\<close>

definition nothingMissing :: "vstate \<Rightarrow> bool" where
  "nothingMissing st \<longleftrightarrow>
     masterNodePartitionNotDefined st = [] \<and> replicaNodePartitionNotDefined st = []"

subsection \<open>The regime check\<close>

text \<open>
  Modelled from the spec: the code that applies what a node reports about a partition
  during a tend (the partition parser) is not among the sources. In the spec's words, a
  regime update for a partition is accepted only if its value is at least the stored
  regime, and then replaces the stored regime and the node assignment of that
  partition; a lower value is discarded and the prior assignment retained.
\<close>

definition updatePartition :: "Partitions \<Rightarrow> nat \<Rightarrow> nat \<Rightarrow> node \<Rightarrow> int \<Rightarrow> Partitions" where
  "updatePartition p replica pIndex nd regime =
     (if regime \<ge> regimes p ! pIndex
      then p\<lparr>Replicas := (Replicas p)[replica := (Replicas p ! replica)[pIndex := Some nd]],
             regimes := (regimes p)[pIndex := regime]\<rparr>
      else p)"

section \<open>Partitions in a store: clone\<close>

text \<open>
  What \<open>clone\<close> promises is about sharing, so here the slices are references. A store
  holds the backing arrays, one list for each element type, and the address of an array
  is its position in that list; \<open>make\<close> appends a new array. A slice is nil or the
  address of its array with its length: every slice of this code starts at the first
  element of its array, and its capacity is the length of the array.
\<close>

datatype slice = NilSlice | Slice nat nat

record heap =
  rowArrays :: "slice list list"
  nodeArrays :: "node option list list"
  intArrays :: "int list list"

record PartitionsH =
  ReplicasH :: slice
  SCModeH :: bool
  regimesH :: slice

fun len :: "slice \<Rightarrow> nat" where
  "len NilSlice = 0"
| "len (Slice a n) = n"

text \<open>The elements of a slice of each type.\<close>

fun rowsOf :: "heap \<Rightarrow> slice \<Rightarrow> slice list" where
  "rowsOf h NilSlice = []"
| "rowsOf h (Slice a n) = take n (rowArrays h ! a)"

fun nodesOf :: "heap \<Rightarrow> slice \<Rightarrow> node option list" where
  "nodesOf h NilSlice = []"
| "nodesOf h (Slice a n) = take n (nodeArrays h ! a)"

fun intsOf :: "heap \<Rightarrow> slice \<Rightarrow> int list" where
  "intsOf h NilSlice = []"
| "intsOf h (Slice a n) = take n (intArrays h ! a)"

text \<open>The contents of a \<open>Partitions\<close> in a store.\<close>

definition contents :: "heap \<Rightarrow> PartitionsH \<Rightarrow> Partitions" where
  "contents h p =
     \<lparr>Replicas = map (nodesOf h) (rowsOf h (ReplicasH p)),
      SCMode = SCModeH p,
      regimes = intsOf h (regimesH p)\<rparr>"

text \<open>\<open>make([]T, n)\<close>: a new array of zero values and the slice of all of it.\<close>

definition makeRows :: "heap \<Rightarrow> nat \<Rightarrow> heap \<times> slice" where
  "makeRows h n =
     (h\<lparr>rowArrays := rowArrays h @ [replicate n NilSlice]\<rparr>, Slice (length (rowArrays h)) n)"

definition makeNodes :: "heap \<Rightarrow> nat \<Rightarrow> heap \<times> slice" where
  "makeNodes h n =
     (h\<lparr>nodeArrays := nodeArrays h @ [replicate n None]\<rparr>, Slice (length (nodeArrays h)) n)"

definition makeInts :: "heap \<Rightarrow> nat \<Rightarrow> heap \<times> slice" where
  "makeInts h n =
     (h\<lparr>intArrays := intArrays h @ [replicate n 0]\<rparr>, Slice (length (intArrays h)) n)"

text \<open>\<open>copy(dst, src)\<close> copies as many elements as the shorter of the two has.\<close>

fun copyNodes :: "heap \<Rightarrow> slice \<Rightarrow> slice \<Rightarrow> heap" where
  "copyNodes h NilSlice src = h"
| "copyNodes h (Slice a n) src =
     (let k = min n (len src)
      in h\<lparr>nodeArrays := (nodeArrays h)
             [a := take k (nodesOf h src) @ drop k (nodeArrays h ! a)]\<rparr>)"

fun copyInts :: "heap \<Rightarrow> slice \<Rightarrow> slice \<Rightarrow> heap" where
  "copyInts h NilSlice src = h"
| "copyInts h (Slice a n) src =
     (let k = min n (len src)
      in h\<lparr>intArrays := (intArrays h)
             [a := take k (intsOf h src) @ drop k (intArrays h ! a)]\<rparr>)"

text \<open>Indexed reads and writes; an index outside the slice panics, which is \<open>None\<close>.\<close>

fun getRow :: "heap \<Rightarrow> slice \<Rightarrow> nat \<Rightarrow> slice option" where
  "getRow h NilSlice i = None"
| "getRow h (Slice a n) i = (if i < n then Some (rowArrays h ! a ! i) else None)"

fun setRow :: "heap \<Rightarrow> slice \<Rightarrow> nat \<Rightarrow> slice \<Rightarrow> heap option" where
  "setRow h NilSlice i r = None"
| "setRow h (Slice a n) i r =
     (if i < n then Some (h\<lparr>rowArrays := (rowArrays h)[a := (rowArrays h ! a)[i := r]]\<rparr>)
      else None)"

fun setNodeAt :: "heap \<Rightarrow> slice \<Rightarrow> nat \<Rightarrow> node option \<Rightarrow> heap option" where
  "setNodeAt h NilSlice j v = None"
| "setNodeAt h (Slice a n) j v =
     (if j < n then Some (h\<lparr>nodeArrays := (nodeArrays h)[a := (nodeArrays h ! a)[j := v]]\<rparr>)
      else None)"

fun setIntAt :: "heap \<Rightarrow> slice \<Rightarrow> nat \<Rightarrow> int \<Rightarrow> heap option" where
  "setIntAt h NilSlice k v = None"
| "setIntAt h (Slice a n) k v =
     (if k < n then Some (h\<lparr>intArrays := (intArrays h)[a := (intArrays h ! a)[k := v]]\<rparr>)
      else None)"

text \<open>
  The loop of \<open>clone\<close>: for each index of \<open>p.Replicas\<close> a new row of the length of the
  old one, filled by \<open>copy\<close> and stored in the new outer slice.
\<close>

function cloneRows :: "heap \<Rightarrow> slice \<Rightarrow> slice \<Rightarrow> nat \<Rightarrow> heap option" where
  "cloneRows h src replicas i =
     (if i < len src then
        (case getRow h src i of
           None \<Rightarrow> None
         | Some row \<Rightarrow>
             (let (h1, r) = makeNodes h (len row);
                  h2 = copyNodes h1 r row
              in case setRow h2 replicas i r of
                   None \<Rightarrow> None
                 | Some h3 \<Rightarrow> cloneRows h3 src replicas (Suc i)))
      else Some h)"
  by pat_completeness auto
termination
  by (relation "measure (\<lambda>(h, src, replicas, i). len src - i)") auto

declare cloneRows.simps [simp del]

definition clone :: "heap \<Rightarrow> PartitionsH \<Rightarrow> (heap \<times> PartitionsH) option" where
  "clone h p =
     (let (h1, replicas) = makeRows h (len (ReplicasH p))
      in case cloneRows h1 (ReplicasH p) replicas 0 of
           None \<Rightarrow> None
         | Some h2 \<Rightarrow>
             (let (h3, regimes') = makeInts h2 (len (regimesH p));
                  h4 = copyInts h3 regimes' (regimesH p)
              in Some (h4, \<lparr>ReplicasH = replicas, SCModeH = SCModeH p, regimesH = regimes'\<rparr>)))"

text \<open>
  The writes a holder of a \<open>Partitions\<close> can make to its grid and regimes:
  \<open>p.Replicas[i][j] = v\<close>, \<open>p.Replicas[i] = r\<close> and \<open>p.regimes[k] = v\<close>.
\<close>

definition writeNode :: "heap \<Rightarrow> PartitionsH \<Rightarrow> nat \<Rightarrow> nat \<Rightarrow> node option \<Rightarrow> heap option" where
  "writeNode h p i j v =
     (case getRow h (ReplicasH p) i of
        None \<Rightarrow> None
      | Some row \<Rightarrow> setNodeAt h row j v)"

definition writeRow :: "heap \<Rightarrow> PartitionsH \<Rightarrow> nat \<Rightarrow> slice \<Rightarrow> heap option" where
  "writeRow h p i r = setRow h (ReplicasH p) i r"

definition writeRegime :: "heap \<Rightarrow> PartitionsH \<Rightarrow> nat \<Rightarrow> int \<Rightarrow> heap option" where
  "writeRegime h p k v = setIntAt h (regimesH p) k v"

text \<open>
  A slice is allocated in a store when its array is there and is long enough, a
  \<open>Partitions\<close> when its two slices and all its rows are.
\<close>

fun allocated :: "'a list list \<Rightarrow> slice \<Rightarrow> bool" where
  "allocated arrays NilSlice = True"
| "allocated arrays (Slice a n) = (a < length arrays \<and> n \<le> length (arrays ! a))"

definition wellformed :: "heap \<Rightarrow> PartitionsH \<Rightarrow> bool" where
  "wellformed h p =
     (allocated (rowArrays h) (ReplicasH p)
      \<and> list_all (allocated (nodeArrays h)) (rowsOf h (ReplicasH p))
      \<and> allocated (intArrays h) (regimesH p))"

text \<open>
  The store while \<open>clone\<close> runs and when it is done, in closed form: after \<open>i\<close>
  rounds of the loop the new outer array holds \<open>i\<close> new rows, at the addresses that
  follow those of the old store, and nil slices after them; at the end there is one new
  array more, for the regimes. \<open>cloneOf\<close> is the struct that \<open>clone\<close> returns.
\<close>

definition clonedRows :: "heap \<Rightarrow> slice list \<Rightarrow> nat \<Rightarrow> slice list" where
  "clonedRows h rs i = map (\<lambda>j. Slice (length (nodeArrays h) + j) (len (rs ! j))) [0..<i]"

definition duringClone :: "heap \<Rightarrow> PartitionsH \<Rightarrow> nat \<Rightarrow> heap" where
  "duringClone h p i =
     \<lparr>rowArrays = rowArrays h
        @ [clonedRows h (rowsOf h (ReplicasH p)) i
           @ replicate (len (ReplicasH p) - i) NilSlice],
      nodeArrays = nodeArrays h @ map (nodesOf h) (take i (rowsOf h (ReplicasH p))),
      intArrays = intArrays h\<rparr>"

definition afterClone :: "heap \<Rightarrow> PartitionsH \<Rightarrow> heap" where
  "afterClone h p =
     \<lparr>rowArrays = rowArrays h
        @ [clonedRows h (rowsOf h (ReplicasH p)) (len (ReplicasH p))],
      nodeArrays = nodeArrays h @ map (nodesOf h) (rowsOf h (ReplicasH p)),
      intArrays = intArrays h @ [intsOf h (regimesH p)]\<rparr>"

definition cloneOf :: "heap \<Rightarrow> PartitionsH \<Rightarrow> PartitionsH" where
  "cloneOf h p =
     \<lparr>ReplicasH = Slice (length (rowArrays h)) (len (ReplicasH p)),
      SCModeH = SCModeH p,
      regimesH = Slice (length (intArrays h)) (len (regimesH p))\<rparr>"

section \<open>Errors in a store: the shared constants\<close>

text \<open>
  Whether a shared instance is changed is a question about references. Here an
  \<open>Error\<close> is nil or the address of a struct in a store of structs, tagged with its
  type; an \<open>error\<close> is such a reference or an error of another package.
\<close>

datatype Ref = NilRef | PtrRef nat | ConstRef nat

datatype eref = ERef Ref | ForeignRef string eref

type_synonym store = "eref AerospikeError list"

text \<open>\<open>newError\<close> allocates; \<open>newCommonError\<close> then sets \<open>wrapped\<close> in place.\<close>

definition newErrorS ::
  "(ResultCode \<Rightarrow> string) \<Rightarrow> store \<Rightarrow> ResultCode \<Rightarrow> string list \<Rightarrow> store \<times> nat" where
  "newErrorS rcToString s code messages =
     (let messages' = (if length messages = 0 then [rcToString code] else messages)
      in (s @ [AerospikeError (ERef NilRef) (join messages') None code False 0], length s))"

definition newCommonErrorS ::
  "(ResultCode \<Rightarrow> string) \<Rightarrow> store \<Rightarrow> eref \<Rightarrow> string list \<Rightarrow> store \<times> nat" where
  "newCommonErrorS rcToString s e messages =
     (let (s1, ne) = newErrorS rcToString s COMMON_ERROR messages
      in (s1[ne := wrap (s1 ! ne) e], ne))"

text \<open>
  \<open>err\<close> on the constant at address \<open>a\<close>: \<open>v\<close> is a new struct holding a copy,
  \<open>v.wrap(nil)\<close> writes to it, and its address is returned.
\<close>

definition errS :: "store \<Rightarrow> nat \<Rightarrow> store \<times> Ref" where
  "errS s a =
     (let v = s ! a;
          s1 = s @ [v];
          s2 = s1[length s := wrap (s1 ! length s) (ERef NilRef)]
      in (s2, PtrRef (length s)))"

text \<open>\<open>chainErrors\<close>: the copy \<open>t\<close> of the struct of \<open>outer\<close> is a new struct.\<close>

fun chainErrorsS :: "(ResultCode \<Rightarrow> string) \<Rightarrow> store \<Rightarrow> Ref \<Rightarrow> eref \<Rightarrow> store \<times> Ref" where
  "chainErrorsS rcToString s NilRef (ERef NilRef) = (s, NilRef)"
| "chainErrorsS rcToString s outer (ERef NilRef) = (s, outer)"
| "chainErrorsS rcToString s NilRef (ERef e) = (s, e)"
| "chainErrorsS rcToString s NilRef (ForeignRef m w) =
     (let (s1, ne) = newCommonErrorS rcToString s (ForeignRef m w) [] in (s1, PtrRef ne))"
| "chainErrorsS rcToString s (ConstRef a) inner =
     (let t = s ! a;
          s1 = s @ [t]
      in (s1[length s := wrap (s1 ! length s) inner], PtrRef (length s)))"
| "chainErrorsS rcToString s (PtrRef a) inner =
     (let t = s ! a;
          s1 = s @ [t]
      in (s1[length s := wrap (s1 ! length s) inner], PtrRef (length s)))"

section \<open>Properties of the error value\<close>

text \<open>
  C2. \<open>setInDoubt\<close> sets the flag \<open>InDoubt\<close> to true exactly when the command is
  write-class (\<open>isRead\<close> false) and the command was sent; otherwise, and so for every
  read-class command whatever \<open>commandWasSent\<close> is, it leaves the flag as it was, and
  the error unchanged. On an error as \<open>newError\<close> makes it the flag after the call is
  the conjunction of the two conditions. No other field changes.
\<close>

theorem setInDoubt_write_and_sent:
  "InDoubt (setInDoubt ase isRead commandWasSent)
     = (if \<not> isRead \<and> commandWasSent then True else InDoubt ase)
   \<and> setInDoubt ase True commandWasSent = ase
   \<and> InDoubt (setInDoubt (newError rcToString code messages) isRead commandWasSent)
       = (\<not> isRead \<and> commandWasSent)
   \<and> wrapped (setInDoubt ase isRead commandWasSent) = wrapped ase
   \<and> msg (setInDoubt ase isRead commandWasSent) = msg ase
   \<and> Node (setInDoubt ase isRead commandWasSent) = Node ase
   \<and> ResultCode (setInDoubt ase isRead commandWasSent) = ResultCode ase
   \<and> Iteration (setInDoubt ase isRead commandWasSent) = Iteration ase"
  by (simp add: setInDoubt_def newError_def Let_def)

text \<open>
  C3. \<open>Matches\<close> on an error whose wrap chain holds a shared constant.
  \<open>chainErrors(newError(COMMON_ERROR, "x"), ErrTimeout)\<close> is a \<open>COMMON_ERROR\<close> whose
  \<open>Unwrap\<close> is the constant \<open>ErrTimeout\<close>, of result code \<open>TIMEOUT\<close>; yet \<open>Matches\<close>
  with \<open>TIMEOUT\<close> is false on it: \<open>errors.As\<close> finds no \<open>*AerospikeError\<close> below
  \<open>wrapped\<close>, the constant being of another type and its method \<open>As\<close> refusing the
  target. The code \<open>TIMEOUT\<close> is among the codes of the chain as the spec counts them.
\<close>

theorem Matches_misses_wrapped_constant:
  "chainErrors codeName (AE (newError codeName COMMON_ERROR [''x''])) (ConstPtr (ErrTimeout codeName))
     = AE (AerospikeError (ConstPtr (ErrTimeout codeName)) ''x'' None COMMON_ERROR False 0)
   \<and> Unwrap (Ptr (AerospikeError (ConstPtr (ErrTimeout codeName)) ''x'' None COMMON_ERROR False 0))
       = ConstPtr (ErrTimeout codeName)
   \<and> ResultCode (ErrTimeout codeName) = TIMEOUT
   \<and> TIMEOUT \<in> set (specChainCodes
         (Ptr (AerospikeError (ConstPtr (ErrTimeout codeName)) ''x'' None COMMON_ERROR False 0)))
   \<and> Matches (Some (AerospikeError (ConstPtr (ErrTimeout codeName)) ''x'' None COMMON_ERROR False 0))
         [TIMEOUT] = False"
  by (simp add: newError_def wrap_def ErrTimeout_def newConstError_def As_def)

text \<open>What \<open>Matches\<close> does see: nothing on a nil receiver, the code of the receiver,
  and the code of a \<open>*AerospikeError\<close> directly below it.\<close>

lemma Matches_nil: "Matches None rcs = False"
  by simp

lemma Matches_own_code: "Matches (Some ase) [ResultCode ase]"
  by simp

lemma Matches_wrapped_Ptr:
  "wrapped ase = Ptr ia \<Longrightarrow> Matches (Some ase) [ResultCode ia]"
  by simp

text \<open>
  Where no shared constant is wrapped below the receiver, \<open>Matches\<close> is what the spec
  says: true exactly when the codes are not empty and one of them is the code of an
  error of the chain.
\<close>

lemma errors_As_codes:
  "noConstant e \<Longrightarrow>
   specChainCodes e = (case errors_As e of None \<Rightarrow> [] | Some a \<Rightarrow> specChainCodes (Ptr a))"
  by (induction e rule: errors_As.induct) auto

lemma errors_As_noConstant:
  "noConstant e \<Longrightarrow> errors_As e = Some a \<Longrightarrow> noConstant (wrapped a)"
proof (induction e rule: errors_As.induct)
  case (2 ase)
  then show ?case by (cases ase) auto
qed auto

lemma Matches_without_constants:
  "noConstant (wrapped ase) \<Longrightarrow>
   Matches (Some ase) rcs \<longleftrightarrow> rcs \<noteq> [] \<and> set (specChainCodes (Ptr ase)) \<inter> set rcs \<noteq> {}"
proof (induction "Some ase" rcs arbitrary: ase rule: Matches.induct)
  case (2 ase rcs)
  obtain w m n rc d i where ase: "ase = AerospikeError w m n rc d i" by (cases ase)
  with "2.prems" have nc: "noConstant w" by simp
  show ?case
  proof (cases "rcs = [] \<or> rc \<in> set rcs")
    case True
    then show ?thesis using ase by auto
  next
    case False
    show ?thesis
    proof (cases "errors_As w")
      case None
      with False ase errors_As_codes [OF nc] show ?thesis by auto
    next
      case (Some a)
      from errors_As_noConstant [OF nc Some] have "noConstant (wrapped a)" .
      with "2.hyps" [of a] False ase Some
      have "Matches (Some a) rcs \<longleftrightarrow> rcs \<noteq> [] \<and> set (specChainCodes (Ptr a)) \<inter> set rcs \<noteq> {}"
        by simp
      with False ase Some errors_As_codes [OF nc] show ?thesis by auto
    qed
  qed
qed

text \<open>
  C4, as the claim states it, fails: \<open>chainErrors(nil, inner)\<close> does not return an
  \<open>inner\<close> of another package unchanged, it returns a new \<open>COMMON_ERROR\<close> around it.
\<close>

theorem chainErrors_foreign_inner_wrapped:
  "toError (chainErrors codeName NilError (Foreign ''EOF'' NilErr)) \<noteq> Foreign ''EOF'' NilErr"
  by (simp add: newCommonError_def)

text \<open>
  C4, amended. \<open>chainErrors(nil, inner)\<close> returns \<open>inner\<close> unchanged when \<open>inner\<close> is an
  \<open>Error\<close> of this package, and a new \<open>COMMON_ERROR\<close> that wraps \<open>inner\<close> when it is
  an error of another package; \<open>chainErrors(outer, nil)\<close> returns \<open>outer\<close> unchanged;
  for non-nil \<open>outer\<close> and \<open>inner\<close> the result is a copy of \<open>outer\<close> whose \<open>Unwrap\<close>
  is \<open>inner\<close> and whose \<open>Matches\<close> recognises the result code of \<open>outer\<close>, and that of
  \<open>inner\<close> when \<open>inner\<close> is a \<open>*AerospikeError\<close>.
\<close>

theorem chainErrors_cases:
  "(asError inner = Some e \<longrightarrow> chainErrors rcToString NilError inner = e \<and> toError e = inner)
   \<and> chainErrors rcToString NilError (Foreign m w)
       = AE (AerospikeError (Foreign m w) (rcToString COMMON_ERROR) None COMMON_ERROR False 0)
   \<and> chainErrors rcToString outer NilErr = outer
   \<and> ((outer = AE t \<or> outer = ConstAE t) \<and> inner \<noteq> NilErr \<longrightarrow>
        chainErrors rcToString outer inner = AE (wrap t inner)
        \<and> Unwrap (toError (chainErrors rcToString outer inner)) = inner
        \<and> Matches (Some (wrap t inner)) [ResultCode t]
        \<and> (\<forall>ia. inner = Ptr ia \<longrightarrow> Matches (Some (wrap t inner)) [ResultCode ia]))"
  apply (intro conjI impI allI)
  subgoal by (cases inner) auto
  subgoal by (cases inner) auto
  subgoal by (simp add: newCommonError_def newError_def wrap_def)
  subgoal by (cases outer) auto
  subgoal by (cases inner) auto
  subgoal by (cases inner) (auto simp: wrap_def)
  subgoal by (simp add: wrap_def)
  subgoal by (simp add: wrap_def)
  done

theorem chainErrors_cases_witness:
  "asError (Ptr (newError codeName TIMEOUT [''late''])) = Some (AE (newError codeName TIMEOUT [''late'']))
   \<and> chainErrors codeName NilError (Ptr (newError codeName TIMEOUT [''late'']))
       = AE (newError codeName TIMEOUT [''late''])
   \<and> Unwrap (toError (chainErrors codeName (ConstAE (ErrInvalidPartitionMap codeName))
                         (Ptr (newError codeName TIMEOUT [''late'']))))
       = Ptr (newError codeName TIMEOUT [''late''])
   \<and> Matches (Some (wrap (ErrInvalidPartitionMap codeName) (Ptr (newError codeName TIMEOUT [''late'']))))
        [INVALID_CLUSTER_PARTITION_MAP]
   \<and> Matches (Some (wrap (ErrInvalidPartitionMap codeName) (Ptr (newError codeName TIMEOUT [''late'']))))
        [TIMEOUT]"
  using chainErrors_cases [where inner = "Ptr (newError codeName TIMEOUT [''late''])"
      and e = "AE (newError codeName TIMEOUT [''late''])" and rcToString = codeName
      and outer = "ConstAE (ErrInvalidPartitionMap codeName)"
      and t = "ErrInvalidPartitionMap codeName" and m = "''EOF''" and w = NilErr]
  by (simp add: ErrInvalidPartitionMap_def newConstError_def newError_def wrap_def)

text \<open>
  C9. Deriving an error from the shared constant at address \<open>a\<close> with \<open>err\<close>, or
  chaining the constant as the outer error, leaves the struct at \<open>a\<close>, and every
  other struct of the store, as it was. What is returned is the address of a new
  struct, a copy of the constant with \<open>wrapped\<close> cleared or set to \<open>inner\<close>; only
  when \<open>inner\<close> is nil does \<open>chainErrors\<close> return the constant itself, and then it
  writes nothing.
\<close>

theorem shared_constant_unchanged:
  assumes "a < length s"
  shows "(case errS s a of (s', r) \<Rightarrow>
            s' ! a = s ! a \<and> (\<forall>b < length s. s' ! b = s ! b)
            \<and> r = PtrRef (length s) \<and> length s' = Suc (length s)
            \<and> s' ! length s = wrap (s ! a) (ERef NilRef))
       \<and> (case chainErrorsS rcToString s (ConstRef a) inner of (s', r) \<Rightarrow>
            s' ! a = s ! a \<and> (\<forall>b < length s. s' ! b = s ! b)
            \<and> (if inner = ERef NilRef then r = ConstRef a \<and> s' = s
                else r = PtrRef (length s) \<and> length s' = Suc (length s)
                     \<and> s' ! length s = wrap (s ! a) inner))"
proof -
  have old: "(xs @ [v])[length xs := w] ! b = xs ! b" if "b < length xs" for xs :: store and v w b
    using that by (simp add: nth_append)
  have new: "(xs @ [v])[length xs := w] ! length xs = w" for xs :: store and v w
    by simp
  have one: "case errS s a of (s', r) \<Rightarrow>
            s' ! a = s ! a \<and> (\<forall>b < length s. s' ! b = s ! b)
            \<and> r = PtrRef (length s) \<and> length s' = Suc (length s)
            \<and> s' ! length s = wrap (s ! a) (ERef NilRef)"
    using assms by (simp add: errS_def Let_def nth_append)
  have two: "case chainErrorsS rcToString s (ConstRef a) inner of (s', r) \<Rightarrow>
            s' ! a = s ! a \<and> (\<forall>b < length s. s' ! b = s ! b)
            \<and> (if inner = ERef NilRef then r = ConstRef a \<and> s' = s
                else r = PtrRef (length s) \<and> length s' = Suc (length s)
                     \<and> s' ! length s = wrap (s ! a) inner)"
  proof (cases "inner = ERef NilRef")
    case True
    then show ?thesis by simp
  next
    case False
    then have eq: "chainErrorsS rcToString s (ConstRef a) inner
        = ((s @ [s ! a])[length s := wrap ((s @ [s ! a]) ! length s) inner], PtrRef (length s))"
    proof (cases inner)
      case (ERef r)
      with False show ?thesis by (cases r) (simp_all add: Let_def)
    next
      case (ForeignRef m w)
      then show ?thesis by (simp add: Let_def)
    qed
    show ?thesis
      using assms False by (simp add: eq nth_append)
  qed
  from one two show ?thesis by blast
qed

theorem shared_constant_unchanged_witness:
  "(0::nat) < length [AerospikeError (ERef NilRef) ''network timeout'' None TIMEOUT False 0]
   \<and> errS [AerospikeError (ERef NilRef) ''network timeout'' None TIMEOUT False 0] 0
       = ([AerospikeError (ERef NilRef) ''network timeout'' None TIMEOUT False 0,
           AerospikeError (ERef NilRef) ''network timeout'' None TIMEOUT False 0], PtrRef 1)
   \<and> chainErrorsS codeName [AerospikeError (ERef NilRef) ''network timeout'' None TIMEOUT False 0]
         (ConstRef 0) (ForeignRef ''EOF'' (ERef NilRef))
       = ([AerospikeError (ERef NilRef) ''network timeout'' None TIMEOUT False 0,
           AerospikeError (ForeignRef ''EOF'' (ERef NilRef)) ''network timeout'' None TIMEOUT False 0],
          PtrRef 1)"
  using shared_constant_unchanged
    [where a = 0 and s = "[AerospikeError (ERef NilRef) ''network timeout'' None TIMEOUT False 0]"
       and rcToString = codeName and inner = "ForeignRef ''EOF'' (ERef NilRef)"]
  by (simp add: errS_def wrap_def Let_def)

section \<open>Properties of Partitions\<close>

lemma extendReplicas_eq:
  "extendReplicas rows i n = rows @ replicate (nat (n - i)) (replicate PARTITIONS None)"
proof (induction rows i n rule: extendReplicas.induct)
  case (1 rows i replicaCount)
  show ?case
  proof (cases "i < replicaCount")
    case True
    then have "nat (replicaCount - i) = Suc (nat (replicaCount - (i + 1)))" by simp
    with True 1 show ?thesis
      by (subst extendReplicas.simps) (simp add: replicate_app_Cons_same)
  next
    case False
    then show ?thesis by (subst extendReplicas.simps) simp
  qed
qed

text \<open>
  C8. For a replica count \<open>n\<close>, which is not negative: when \<open>n\<close> is greater than the
  number of rows, \<open>setReplicaCount\<close> keeps every row that was there, element for
  element, and appends new rows of \<open>_PARTITIONS\<close> nil entries up to \<open>n\<close> rows;
  otherwise it keeps the first \<open>n\<close> rows, with their contents, and drops the rest.
  \<open>SCMode\<close> and the regimes are not touched.
\<close>

theorem setReplicaCount_rows:
  assumes "0 \<le> n"
  shows "\<exists>p'. setReplicaCount p n = Inr p'
           \<and> SCMode p' = SCMode p \<and> regimes p' = regimes p
           \<and> (if int (length (Replicas p)) < n
               then Replicas p' = Replicas p
                      @ replicate (nat n - length (Replicas p)) (replicate PARTITIONS None)
                    \<and> (\<forall>r < length (Replicas p). Replicas p' ! r = Replicas p ! r)
               else Replicas p' = take (nat n) (Replicas p)
                    \<and> (\<forall>r < nat n. Replicas p' ! r = Replicas p ! r))
           \<and> length (Replicas p') = nat n"
proof (cases "int (length (Replicas p)) < n")
  case True
  then have "nat (n - int (length (Replicas p))) = nat n - length (Replicas p)" by simp
  with True show ?thesis
    by (simp add: setReplicaCount_def extendReplicas_eq nth_append)
next
  case False
  with assms show ?thesis
    by (simp add: setReplicaCount_def)
qed

theorem setReplicaCount_rows_witness:
  "(0::int) \<le> 2
   \<and> setReplicaCount \<lparr>Replicas = [[Some 7, None]], SCMode = False, regimes = [0, 0]\<rparr> 2
       = Inr \<lparr>Replicas = [[Some 7, None], replicate PARTITIONS None], SCMode = False, regimes = [0, 0]\<rparr>
   \<and> setReplicaCount \<lparr>Replicas = [[Some 7, None], [None, Some 8]], SCMode = False, regimes = [0, 0]\<rparr> 1
       = Inr \<lparr>Replicas = [[Some 7, None]], SCMode = False, regimes = [0, 0]\<rparr>"
  using setReplicaCount_rows [of 2 "\<lparr>Replicas = [[Some 7, None]], SCMode = False, regimes = [0, 0]\<rparr>"]
  by (simp add: setReplicaCount_def extendReplicas.simps)

text \<open>A negative count reaches the reslicing branch, which panics.\<close>

lemma setReplicaCount_negative: "n < 0 \<Longrightarrow> setReplicaCount p n = Inl SliceBoundsOutOfRange"
  by (simp add: setReplicaCount_def)

text \<open>
  C5. For a partition of the grid and an incoming regime: when the incoming value is
  at least the stored regime the update is applied, the stored regime becomes the
  incoming one and the slot holds the reporting node; when it is smaller the update
  is discarded and the \<open>Partitions\<close> is as before, regime and node assignment.
\<close>

theorem updatePartition_iff:
  assumes "replica < length (Replicas p)" and "pIndex < length (Replicas p ! replica)"
    and "pIndex < length (regimes p)"
  shows "(regime \<ge> regimes p ! pIndex \<longrightarrow>
            regimes (updatePartition p replica pIndex nd regime) ! pIndex = regime
            \<and> nodeAt (updatePartition p replica pIndex nd regime) replica pIndex = Inr (Some nd))
       \<and> (regime < regimes p ! pIndex \<longrightarrow>
            updatePartition p replica pIndex nd regime = p)"
  using assms by (simp add: updatePartition_def nodeAt_def)

theorem updatePartition_iff_witness:
  "(0::nat) < length (Replicas \<lparr>Replicas = [[Some 7, None]], SCMode = True, regimes = [5, 5]\<rparr>)
   \<and> updatePartition \<lparr>Replicas = [[Some 7, None]], SCMode = True, regimes = [5, 5]\<rparr> 0 0 9 5
       = \<lparr>Replicas = [[Some 9, None]], SCMode = True, regimes = [5, 5]\<rparr>
   \<and> updatePartition \<lparr>Replicas = [[Some 7, None]], SCMode = True, regimes = [5, 5]\<rparr> 0 0 9 4
       = \<lparr>Replicas = [[Some 7, None]], SCMode = True, regimes = [5, 5]\<rparr>"
  using updatePartition_iff
    [of 0 "\<lparr>Replicas = [[Some 7, None]], SCMode = True, regimes = [5, 5]\<rparr>" 0 5 9]
    updatePartition_iff
    [of 0 "\<lparr>Replicas = [[Some 7, None]], SCMode = True, regimes = [5, 5]\<rparr>" 0 4 9]
  by (simp add: updatePartition_def)

subsection \<open>validate\<close>

lemma appendAt_not_empty: "appendAt m k v \<noteq> []"
  by (cases m) (auto split: if_splits)

lemma chainErrors_AE_not_nil: "chainErrors rcToString (AE x) inner \<noteq> NilError"
  by (cases inner) auto

lemma nothingMissing_errs_update [simp]:
  "nothingMissing (st\<lparr>errs := e\<rparr>) = nothingMissing st"
  by (simp add: nothingMissing_def)

lemma scanNodes_errs: "errs (scanNodes nsName replica pIndex nodes st) = errs st"
  by (induction nodes arbitrary: pIndex st) auto

lemma scanNodes_nothingMissing:
  "nothingMissing (scanNodes nsName replica pIndex nodes st)
   \<longleftrightarrow> (nothingMissing st \<and> None \<notin> set nodes)"
proof (induction nodes arbitrary: pIndex st)
  case Nil
  then show ?case by simp
next
  case (Cons node rest)
  show ?case
    by (cases node) (simp_all add: Cons.IH, auto simp: nothingMissing_def appendAt_not_empty)
qed

lemma scanReplicas_errs_iff:
  "errs (scanReplicas rcToString nsName replica rows st) = NilError
   \<longleftrightarrow> (errs st = NilError \<and> (\<forall>row \<in> set rows. length row = PARTITIONS))"
proof (induction rows arbitrary: replica st)
  case Nil
  then show ?case by simp
next
  case (Cons row rest)
  show ?case
    by (auto simp: Cons.IH scanNodes_errs chainErrors_AE_not_nil Let_def)
qed

lemma scanReplicas_nothingMissing:
  "nothingMissing (scanReplicas rcToString nsName replica rows st)
   \<longleftrightarrow> (nothingMissing st \<and> (\<forall>row \<in> set rows. None \<notin> set row))"
proof (induction rows arbitrary: replica st)
  case Nil
  then show ?case by simp
next
  case (Cons row rest)
  show ?case
    by (auto simp: Cons.IH scanNodes_nothingMissing Let_def)
qed

lemma scanNamespaces_errs_iff:
  "errs (scanNamespaces rcToString pm st) = NilError
   \<longleftrightarrow> (errs st = NilError
        \<and> (\<forall>(nsName, p) \<in> set pm. length (regimes p) = PARTITIONS
              \<and> (\<forall>row \<in> set (Replicas p). length row = PARTITIONS)))"
proof (induction pm arbitrary: st)
  case Nil
  then show ?case by simp
next
  case (Cons entry rest)
  obtain nsName p where entry: "entry = (nsName, p)" by (cases entry)
  show ?case
    by (auto simp: entry Cons.IH scanReplicas_errs_iff chainErrors_AE_not_nil Let_def)
qed

lemma scanNamespaces_nothingMissing:
  "nothingMissing (scanNamespaces rcToString pm st)
   \<longleftrightarrow> (nothingMissing st
        \<and> (\<forall>(nsName, p) \<in> set pm. \<forall>row \<in> set (Replicas p). None \<notin> set row))"
proof (induction pm arbitrary: st)
  case Nil
  then show ?case by simp
next
  case (Cons entry rest)
  obtain nsName p where entry: "entry = (nsName, p)" by (cases entry)
  show ?case
    by (auto simp: entry Cons.IH scanReplicas_nothingMissing Let_def)
qed

lemma validate_nil_iff:
  "validate rcToString pm = NilError
   \<longleftrightarrow> (\<forall>(nsName, p) \<in> set pm. length (regimes p) = PARTITIONS
          \<and> (\<forall>row \<in> set (Replicas p). length row = PARTITIONS \<and> None \<notin> set row))"
proof -
  let ?st = "scanNamespaces rcToString pm
               \<lparr>masterNodePartitionNotDefined = [], replicaNodePartitionNotDefined = [],
                errs = NilError\<rparr>"
  have fin: "chainErrors rcToString (err c) inner \<noteq> NilError" for c inner
    by (simp add: err_def chainErrors_AE_not_nil)
  have "validate rcToString pm = NilError \<longleftrightarrow> (errs ?st = NilError \<and> nothingMissing ?st)"
    by (auto simp: validate_def Let_def fin nothingMissing_def)
  also have "\<dots> \<longleftrightarrow> (\<forall>(nsName, p) \<in> set pm. length (regimes p) = PARTITIONS
          \<and> (\<forall>row \<in> set (Replicas p). length row = PARTITIONS \<and> None \<notin> set row))"
    unfolding scanNamespaces_errs_iff scanNamespaces_nothingMissing
    by (auto simp: nothingMissing_def)
  finally show ?thesis .
qed

text \<open>
  C1, as the claim states it, fails: a \<open>Partitions\<close> with no replica row and 4096
  regimes passes \<open>validate\<close>, the loop over the rows having nothing to visit, and it
  has no node at replica index 0: the read is out of range.
\<close>

theorem validate_no_replica_rows:
  "validate codeName [(''test'', \<lparr>Replicas = [], SCMode = False, regimes = replicate 4096 0\<rparr>)] = NilError
   \<and> nodeAt \<lparr>Replicas = [], SCMode = False, regimes = replicate 4096 0\<rparr> 0 0 = Inl IndexOutOfRange"
  by (simp add: validate_def PARTITIONS_def nodeAt_def)

text \<open>
  C1, amended. For every partition map on which \<open>validate\<close> returns nil, every
  namespace's \<open>Partitions\<close> that has at least one replica row has a non-nil node at
  replica index 0 for every partition index below \<open>_PARTITIONS\<close>.
\<close>

theorem validate_master_defined:
  assumes "validate rcToString pm = NilError" and "(nsName, p) \<in> set pm"
    and "Replicas p \<noteq> []" and "pIndex < PARTITIONS"
  shows "\<exists>nd. nodeAt p 0 pIndex = Inr (Some nd)"
proof -
  from assms(1,2) have rows: "\<forall>row \<in> set (Replicas p). length row = PARTITIONS \<and> None \<notin> set row"
    unfolding validate_nil_iff by blast
  from assms(3) have "hd (Replicas p) \<in> set (Replicas p)" by simp
  with rows have "length (hd (Replicas p)) = PARTITIONS" and "None \<notin> set (hd (Replicas p))"
    by blast+
  moreover from assms(3) have "Replicas p ! 0 = hd (Replicas p)"
    by (simp add: hd_conv_nth)
  ultimately have "pIndex < length (Replicas p ! 0)" and "Replicas p ! 0 ! pIndex \<noteq> None"
    using assms(4) by (auto simp: in_set_conv_nth)
  with assms(3) show ?thesis
    by (auto simp: nodeAt_def)
qed

theorem validate_master_defined_witness:
  "validate codeName [(''test'', \<lparr>Replicas = [replicate 4096 (Some 1)], SCMode = False,
                                 regimes = replicate 4096 0\<rparr>)] = NilError
   \<and> (4095::nat) < PARTITIONS
   \<and> nodeAt \<lparr>Replicas = [replicate 4096 (Some 1)], SCMode = False,
              regimes = replicate 4096 0\<rparr> 0 4095 = Inr (Some 1)"
  using validate_master_defined [where rcToString = codeName
      and pm = "[(''test'', \<lparr>Replicas = [replicate 4096 (Some 1)], SCMode = False,
                              regimes = replicate 4096 0\<rparr>)]"
      and nsName = "''test''"
      and p = "\<lparr>Replicas = [replicate 4096 (Some 1)], SCMode = False, regimes = replicate 4096 0\<rparr>"
      and pIndex = 4095]
  by (simp add: validate_nil_iff PARTITIONS_def nodeAt_def)

text \<open>
  C10. \<open>validate\<close> returns nil exactly when, for every namespace, the regimes and each
  replica row have \<open>_PARTITIONS\<close> entries and no slot of any row, master or not, is
  nil. So one nil slot in a row of replica index above 0 makes it return an error, also
  where every master slot is set, as in the map of the witness.
\<close>

theorem validate_nil_all_slots:
  "(validate rcToString pm = NilError \<longleftrightarrow>
      (\<forall>(nsName, p) \<in> set pm. length (regimes p) = PARTITIONS
         \<and> (\<forall>row \<in> set (Replicas p). length row = PARTITIONS \<and> None \<notin> set row)))
   \<and> ((nsName, p) \<in> set pm \<and> 0 < replica \<and> replica < length (Replicas p)
        \<and> pIndex < length (Replicas p ! replica) \<and> Replicas p ! replica ! pIndex = None
       \<longrightarrow> validate rcToString pm \<noteq> NilError)"
proof (intro conjI impI)
  show "validate rcToString pm = NilError \<longleftrightarrow>
      (\<forall>(nsName, p) \<in> set pm. length (regimes p) = PARTITIONS
         \<and> (\<forall>row \<in> set (Replicas p). length row = PARTITIONS \<and> None \<notin> set row))"
    by (rule validate_nil_iff)
next
  assume a: "(nsName, p) \<in> set pm \<and> 0 < replica \<and> replica < length (Replicas p)
        \<and> pIndex < length (Replicas p ! replica) \<and> Replicas p ! replica ! pIndex = None"
  then have "Replicas p ! replica \<in> set (Replicas p)" by simp
  moreover from a have "None \<in> set (Replicas p ! replica)"
    by (metis nth_mem)
  ultimately show "validate rcToString pm \<noteq> NilError"
    using a unfolding validate_nil_iff by blast
qed

theorem validate_nil_all_slots_witness:
  "length (replicate 4096 (Some (1::nat))) = PARTITIONS
   \<and> None \<notin> set (replicate 4096 (Some (1::nat)))
   \<and> (replicate 4095 (Some (2::nat)) @ [None]) ! 4095 = None
   \<and> validate codeName
        [(''test'', \<lparr>Replicas = [replicate 4096 (Some 1), replicate 4095 (Some 2) @ [None]],
                     SCMode = False, regimes = replicate 4096 0\<rparr>)] \<noteq> NilError"
  using validate_nil_all_slots [where rcToString = codeName
      and pm = "[(''test'', \<lparr>Replicas = [replicate 4096 (Some 1), replicate 4095 (Some 2) @ [None]],
                     SCMode = False, regimes = replicate 4096 0\<rparr>)]"
      and nsName = "''test''"
      and p = "\<lparr>Replicas = [replicate 4096 (Some 1), replicate 4095 (Some 2) @ [None]],
                     SCMode = False, regimes = replicate 4096 0\<rparr>"
      and replica = 1 and pIndex = 4095]
  by (simp add: PARTITIONS_def nodeAt_def nth_append)

text \<open>Rows of nil entries only: every index is collected, in order.\<close>

lemma scanNodes_all_nil_master:
  "masterNodePartitionNotDefined st = [(nsName, l)] \<Longrightarrow>
   scanNodes nsName 0 i (replicate n None) st
     = st\<lparr>masterNodePartitionNotDefined := [(nsName, l @ [i..<i + n])]\<rparr>"
proof (induction n arbitrary: i l st)
  case 0
  then show ?case by simp
next
  case (Suc n)
  have "[i..<i + Suc n] = i # [Suc i..<Suc i + n]"
    by (simp add: upt_rec)
  with Suc.prems show ?case
    by (simp add: Suc.IH [where l = "l @ [i]"])
qed

lemma scanNodes_all_nil_replica:
  "replicaNodePartitionNotDefined st = [(nsName, l)] \<Longrightarrow> 0 < replica \<Longrightarrow>
   scanNodes nsName replica i (replicate n None) st
     = st\<lparr>replicaNodePartitionNotDefined := [(nsName, l @ [i..<i + n])]\<rparr>"
proof (induction n arbitrary: i l st)
  case 0
  then show ?case by simp
next
  case (Suc n)
  have "[i..<i + Suc n] = i # [Suc i..<Suc i + n]"
    by (simp add: upt_rec)
  with Suc.prems show ?case
    by (simp add: Suc.IH [where l = "l @ [i]"])
qed

lemma scanNodes_first_nil_master:
  assumes "masterNodePartitionNotDefined st = []" and "0 < n"
  shows "scanNodes nsName 0 0 (replicate n None) st
     = st\<lparr>masterNodePartitionNotDefined := [(nsName, [0..<n])]\<rparr>"
proof -
  from assms(2) obtain k where n: "n = Suc k" by (cases n) auto
  have "[0..<Suc k] = 0 # [1..<1 + k]" by (simp add: upt_rec)
  with assms(1) show ?thesis
    using scanNodes_all_nil_master
      [of "st\<lparr>masterNodePartitionNotDefined := [(nsName, [0])]\<rparr>" nsName "[0]" 1 k]
    by (simp add: n del: upt_Suc)
qed

lemma scanNodes_first_nil_replica:
  assumes "replicaNodePartitionNotDefined st = []" and "0 < replica" and "0 < n"
  shows "scanNodes nsName replica 0 (replicate n None) st
     = st\<lparr>replicaNodePartitionNotDefined := [(nsName, [0..<n])]\<rparr>"
proof -
  from assms(3) obtain k where n: "n = Suc k" by (cases n) auto
  have "[0..<Suc k] = 0 # [1..<1 + k]" by (simp add: upt_rec)
  with assms(1,2) show ?thesis
    using scanNodes_all_nil_replica
      [of "st\<lparr>replicaNodePartitionNotDefined := [(nsName, [0])]\<rparr>" nsName "[0]" replica 1 k]
    by (simp add: n del: upt_Suc)
qed

lemma itoa_4096: "itoa 4096 = ''4096''"
  by (simp add: itoa.simps digit_def)

lemma newPartitions_4096_2:
  "newPartitions 4096 2 cpMode
     = Inr \<lparr>Replicas = [replicate 4096 None, replicate 4096 None], SCMode = cpMode,
            regimes = replicate 4096 0\<rparr>"
proof -
  have "[0..<nat 2] = [0, 1]" by (simp add: upt_rec)
  then show ?thesis by (simp add: newPartitions_def)
qed

lemma scan_empty_4096:
  "scanNamespaces rcToString
     [(nsName, \<lparr>Replicas = [replicate 4096 None, replicate 4096 None], SCMode = cpMode,
                regimes = replicate 4096 0\<rparr>)]
     \<lparr>masterNodePartitionNotDefined = [], replicaNodePartitionNotDefined = [], errs = NilError\<rparr>
   = \<lparr>masterNodePartitionNotDefined = [(nsName, [0..<4096])],
      replicaNodePartitionNotDefined = [(nsName, [0..<4096])], errs = NilError\<rparr>"
  by (simp add: PARTITIONS_def scanNodes_first_nil_master scanNodes_first_nil_replica)

text \<open>
  C6. \<open>newPartitions\<close> for 4096 partitions and 2 replicas gives two rows of 4096 nil
  slots. On a map that holds it, \<open>validate\<close> collects the 4096 indices of the master
  row for the namespace and returns a chain of three errors: the copy of
  \<open>ErrInvalidPartitionMap\<close>, which \<open>Matches\<close> recognises by its code, around the
  report of the replica row, around the report of 4096 master partitions out of 4096.
\<close>

theorem validate_newPartitions:
  "\<exists>p. newPartitions 4096 2 cpMode = Inr p
     \<and> masterNodePartitionNotDefined
          (scanNamespaces rcToString [(nsName, p)]
            \<lparr>masterNodePartitionNotDefined = [], replicaNodePartitionNotDefined = [],
             errs = NilError\<rparr>) = [(nsName, [0..<4096])]
     \<and> validate rcToString [(nsName, p)]
         = AE (AerospikeError
                (Ptr (AerospikeError
                  (Ptr (AerospikeError NilErr
                    (''Master partition nodes not defined for namespace `'' @ nsName
                       @ ''`: 4096 out of 4096'')
                    None COMMON_ERROR False 0))
                  (''Replica partition nodes not defined for namespace `'' @ nsName @ ''`: 4096'')
                  None COMMON_ERROR False 0))
                (msg (ErrInvalidPartitionMap rcToString))
                None INVALID_CLUSTER_PARTITION_MAP False 0)
     \<and> Matches (Some (AerospikeError
                (Ptr (AerospikeError
                  (Ptr (AerospikeError NilErr
                    (''Master partition nodes not defined for namespace `'' @ nsName
                       @ ''`: 4096 out of 4096'')
                    None COMMON_ERROR False 0))
                  (''Replica partition nodes not defined for namespace `'' @ nsName @ ''`: 4096'')
                  None COMMON_ERROR False 0))
                (msg (ErrInvalidPartitionMap rcToString))
                None INVALID_CLUSTER_PARTITION_MAP False 0)) [INVALID_CLUSTER_PARTITION_MAP]"
proof -
  have "validate rcToString
          [(nsName, \<lparr>Replicas = [replicate 4096 None, replicate 4096 None], SCMode = cpMode,
                     regimes = replicate 4096 0\<rparr>)]
        = AE (AerospikeError
                (Ptr (AerospikeError
                  (Ptr (AerospikeError NilErr
                    (''Master partition nodes not defined for namespace `'' @ nsName
                       @ ''`: 4096 out of 4096'')
                    None COMMON_ERROR False 0))
                  (''Replica partition nodes not defined for namespace `'' @ nsName @ ''`: 4096'')
                  None COMMON_ERROR False 0))
                (msg (ErrInvalidPartitionMap rcToString))
                None INVALID_CLUSTER_PARTITION_MAP False 0)"
    unfolding validate_def scan_empty_4096
    by (simp add: Let_def newError_def wrap_def err_def itoa_4096 PARTITIONS_def
          ErrInvalidPartitionMap_def newConstError_def)
  moreover have "masterNodePartitionNotDefined
          (scanNamespaces rcToString
            [(nsName, \<lparr>Replicas = [replicate 4096 None, replicate 4096 None], SCMode = cpMode,
                       regimes = replicate 4096 0\<rparr>)]
            \<lparr>masterNodePartitionNotDefined = [], replicaNodePartitionNotDefined = [],
             errs = NilError\<rparr>) = [(nsName, [0..<4096])]"
    by (simp only: scan_empty_4096 vstate.select_convs)
  moreover have "Matches (Some (AerospikeError w m n INVALID_CLUSTER_PARTITION_MAP d i))
      [INVALID_CLUSTER_PARTITION_MAP]" for w m n d i
    by simp
  ultimately show ?thesis
    unfolding newPartitions_4096_2 by blast
qed


theorem validate_newPartitions_witness:
  "newPartitions 4096 2 False
     = Inr \<lparr>Replicas = [replicate 4096 None, replicate 4096 None], SCMode = False,
            regimes = replicate 4096 0\<rparr>
   \<and> validate codeName
        [(''test'', \<lparr>Replicas = [replicate 4096 None, replicate 4096 None], SCMode = False,
                      regimes = replicate 4096 0\<rparr>)]
       = AE (AerospikeError
              (Ptr (AerospikeError
                (Ptr (AerospikeError NilErr
                  ''Master partition nodes not defined for namespace `test`: 4096 out of 4096''
                  None COMMON_ERROR False 0))
                ''Replica partition nodes not defined for namespace `test`: 4096''
                None COMMON_ERROR False 0))
              (msg (ErrInvalidPartitionMap codeName))
              None INVALID_CLUSTER_PARTITION_MAP False 0)"
  using validate_newPartitions [of False codeName "''test''"]
  unfolding newPartitions_4096_2
  by simp

section \<open>Properties of clone\<close>

lemma length_rowsOf: "allocated (rowArrays h) s \<Longrightarrow> length (rowsOf h s) = len s"
  by (cases s) auto

lemma length_nodesOf: "allocated (nodeArrays h) s \<Longrightarrow> length (nodesOf h s) = len s"
  by (cases s) auto

lemma length_intsOf: "allocated (intArrays h) s \<Longrightarrow> length (intsOf h s) = len s"
  by (cases s) auto

lemma length_clonedRows [simp]: "length (clonedRows h rs i) = i"
  by (simp add: clonedRows_def)

lemma clonedRows_Suc:
  "clonedRows h rs (Suc i) = clonedRows h rs i @ [Slice (length (nodeArrays h) + i) (len (rs ! i))]"
  by (simp add: clonedRows_def)

lemma getRow_duringClone:
  assumes "allocated (rowArrays h) (ReplicasH p)" and "i < len (ReplicasH p)"
  shows "getRow (duringClone h p i) (ReplicasH p) i = Some (rowsOf h (ReplicasH p) ! i)"
  using assms by (cases "ReplicasH p") (auto simp: duringClone_def nth_append)

lemma step_duringClone:
  assumes wf: "wellformed h p" and i: "i < len (ReplicasH p)"
  defines "row \<equiv> rowsOf h (ReplicasH p) ! i"
  shows "setRow (copyNodes (fst (makeNodes (duringClone h p i) (len row)))
                   (snd (makeNodes (duringClone h p i) (len row))) row)
           (Slice (length (rowArrays h)) (len (ReplicasH p))) i
           (snd (makeNodes (duringClone h p i) (len row)))
         = Some (duringClone h p (Suc i))"
proof -
  let ?rs = "rowsOf h (ReplicasH p)"
  from wf have alloc: "allocated (rowArrays h) (ReplicasH p)"
    and rows: "list_all (allocated (nodeArrays h)) ?rs"
    by (simp_all add: wellformed_def)
  from alloc have lrs: "length ?rs = len (ReplicasH p)" by (rule length_rowsOf)
  with i rows have arow: "allocated (nodeArrays h) row"
    by (simp add: row_def list_all_length)
  have src: "nodesOf \<lparr>rowArrays = X, nodeArrays = nodeArrays h @ E, intArrays = Y\<rparr> row
      = nodesOf h row" for X E Y
    using arow by (cases row) (auto simp: nth_append)
  have tk: "take (Suc i) ?rs = take i ?rs @ [row]"
    using i lrs by (simp add: row_def take_Suc_conv_app_nth)
  have rep: "replicate (len (ReplicasH p) - i) NilSlice
      = NilSlice # replicate (len (ReplicasH p) - Suc i) NilSlice"
    using i by (cases "len (ReplicasH p) - i") (auto simp: Suc_diff_Suc)
  show ?thesis
    using i length_nodesOf [OF arow]
    by (simp add: makeNodes_def Let_def src lrs tk rep clonedRows_Suc duringClone_def
          nth_append list_update_append row_def [symmetric])
qed


lemma cloneRows_duringClone:
  assumes wf: "wellformed h p" and i: "i \<le> len (ReplicasH p)"
  shows "cloneRows (duringClone h p i) (ReplicasH p)
           (Slice (length (rowArrays h)) (len (ReplicasH p))) i
         = Some (duringClone h p (len (ReplicasH p)))"
  using i
proof (induction "len (ReplicasH p) - i" arbitrary: i)
  case 0
  then have "i = len (ReplicasH p)" by simp
  then show ?case by (subst cloneRows.simps) simp
next
  case (Suc k)
  then have lt: "i < len (ReplicasH p)" by simp
  from wf have alloc: "allocated (rowArrays h) (ReplicasH p)"
    by (simp add: wellformed_def)
  from Suc have next_ok: "cloneRows (duringClone h p (Suc i)) (ReplicasH p)
           (Slice (length (rowArrays h)) (len (ReplicasH p))) (Suc i)
         = Some (duringClone h p (len (ReplicasH p)))"
    by simp
  show ?case
    by (subst cloneRows.simps)
       (simp only: lt if_True getRow_duringClone [OF alloc lt] option.case case_prod_beta
          Let_def step_duringClone [OF wf lt] next_ok)
qed

lemma clone_result:
  assumes wf: "wellformed h p"
  shows "clone h p = Some (afterClone h p, cloneOf h p)"
proof -
  from wf have alloc: "allocated (rowArrays h) (ReplicasH p)"
    and areg: "allocated (intArrays h) (regimesH p)"
    by (simp_all add: wellformed_def)
  have start: "makeRows h (len (ReplicasH p))
      = (duringClone h p 0, Slice (length (rowArrays h)) (len (ReplicasH p)))"
    by (simp add: makeRows_def duringClone_def clonedRows_def)
  have loop: "cloneRows (duringClone h p 0) (ReplicasH p)
           (Slice (length (rowArrays h)) (len (ReplicasH p))) 0
         = Some (duringClone h p (len (ReplicasH p)))"
    by (rule cloneRows_duringClone [OF wf]) simp
  have reg: "intsOf \<lparr>rowArrays = X, nodeArrays = Y, intArrays = intArrays h @ E\<rparr> (regimesH p)
      = intsOf h (regimesH p)" for X Y E
    using areg by (cases "regimesH p") (auto simp: nth_append)
  have "clone h p =
      (let (h3, regimes') = makeInts (duringClone h p (len (ReplicasH p))) (len (regimesH p));
           h4 = copyInts h3 regimes' (regimesH p)
       in Some (h4, \<lparr>ReplicasH = Slice (length (rowArrays h)) (len (ReplicasH p)),
                      SCModeH = SCModeH p, regimesH = regimes'\<rparr>))"
    by (simp only: clone_def start Let_def split_conv loop option.case)
  then show ?thesis
    using length_intsOf [OF areg] length_rowsOf [OF alloc]
    by (simp add: makeInts_def Let_def duringClone_def afterClone_def cloneOf_def reg)
qed


lemma contents_agree_old:
  assumes wf: "wellformed h p"
    and rows: "\<forall>a < length (rowArrays h). rowArrays g ! a = rowArrays h ! a"
    and nodes: "\<forall>a < length (nodeArrays h). nodeArrays g ! a = nodeArrays h ! a"
    and ints: "\<forall>a < length (intArrays h). intArrays g ! a = intArrays h ! a"
  shows "contents g p = contents h p"
proof -
  from wf have alloc: "allocated (rowArrays h) (ReplicasH p)"
    and arows: "list_all (allocated (nodeArrays h)) (rowsOf h (ReplicasH p))"
    and areg: "allocated (intArrays h) (regimesH p)"
    by (simp_all add: wellformed_def)
  have r: "rowsOf g (ReplicasH p) = rowsOf h (ReplicasH p)"
    using alloc rows by (cases "ReplicasH p") auto
  have n: "nodesOf g s = nodesOf h s" if "allocated (nodeArrays h) s" for s
    using that nodes by (cases s) auto
  have "map (nodesOf g) (rowsOf h (ReplicasH p)) = map (nodesOf h) (rowsOf h (ReplicasH p))"
    using arows by (intro map_cong refl n) (simp add: list_all_iff)
  moreover have "intsOf g (regimesH p) = intsOf h (regimesH p)"
    using areg ints by (cases "regimesH p") auto
  ultimately show ?thesis
    by (simp add: contents_def r)
qed

lemma rowsOf_cloneOf:
  "rowArrays g ! length (rowArrays h) = rowArrays (afterClone h p) ! length (rowArrays h) \<Longrightarrow>
   rowsOf g (ReplicasH (cloneOf h p))
     = clonedRows h (rowsOf h (ReplicasH p)) (len (ReplicasH p))"
  by (simp add: cloneOf_def afterClone_def)

lemma contents_agree_new:
  assumes rows: "rowArrays g ! length (rowArrays h)
                   = rowArrays (afterClone h p) ! length (rowArrays h)"
    and nodes: "\<forall>a \<ge> length (nodeArrays h). nodeArrays g ! a = nodeArrays (afterClone h p) ! a"
    and ints: "intArrays g ! length (intArrays h)
                 = intArrays (afterClone h p) ! length (intArrays h)"
  shows "contents g (cloneOf h p) = contents (afterClone h p) (cloneOf h p)"
proof -
  let ?A = "afterClone h p"
  let ?C = "clonedRows h (rowsOf h (ReplicasH p)) (len (ReplicasH p))"
  have rg: "rowsOf g (ReplicasH (cloneOf h p)) = ?C"
    using rows by (rule rowsOf_cloneOf)
  have rA: "rowsOf ?A (ReplicasH (cloneOf h p)) = ?C"
    by (rule rowsOf_cloneOf) simp
  have "nodesOf g s = nodesOf ?A s" if "s \<in> set ?C" for s
    using that nodes by (auto simp: clonedRows_def)
  then have "map (nodesOf g) ?C = map (nodesOf ?A) ?C"
    by (intro map_cong refl)
  moreover have "intsOf g (regimesH (cloneOf h p)) = intsOf ?A (regimesH (cloneOf h p))"
    using ints by (simp add: cloneOf_def)
  ultimately show ?thesis
    by (simp add: contents_def rg rA)
qed

lemma contents_cloneOf:
  assumes wf: "wellformed h p"
  shows "contents (afterClone h p) (cloneOf h p) = contents h p"
proof -
  let ?rs = "rowsOf h (ReplicasH p)"
  let ?A = "afterClone h p"
  from wf have alloc: "allocated (rowArrays h) (ReplicasH p)"
    and arows: "list_all (allocated (nodeArrays h)) ?rs"
    and areg: "allocated (intArrays h) (regimesH p)"
    by (simp_all add: wellformed_def)
  from alloc have lrs: "length ?rs = len (ReplicasH p)" by (rule length_rowsOf)
  have rA: "rowsOf ?A (ReplicasH (cloneOf h p)) = clonedRows h ?rs (len (ReplicasH p))"
    by (rule rowsOf_cloneOf) simp
  have "map (nodesOf ?A) (clonedRows h ?rs (len (ReplicasH p))) = map (nodesOf h) ?rs"
  proof (rule nth_equalityI)
    show "length (map (nodesOf ?A) (clonedRows h ?rs (len (ReplicasH p))))
        = length (map (nodesOf h) ?rs)"
      by (simp add: lrs)
  next
    fix j
    assume "j < length (map (nodesOf ?A) (clonedRows h ?rs (len (ReplicasH p))))"
    then have j: "j < length ?rs" by (simp add: lrs)
    with arows have "allocated (nodeArrays h) (?rs ! j)"
      by (simp add: list_all_length)
    then have "length (nodesOf h (?rs ! j)) = len (?rs ! j)"
      by (rule length_nodesOf)
    with j show "map (nodesOf ?A) (clonedRows h ?rs (len (ReplicasH p))) ! j
        = map (nodesOf h) ?rs ! j"
      by (simp add: lrs clonedRows_def afterClone_def nth_append)
  qed
  moreover have "intsOf ?A (regimesH (cloneOf h p)) = intsOf h (regimesH p)"
    using length_intsOf [OF areg] by (simp add: cloneOf_def afterClone_def)
  ultimately show ?thesis
    by (simp add: contents_def rA) (simp add: cloneOf_def)
qed


lemma setNodeAt_other:
  "setNodeAt g s j v = Some g' \<Longrightarrow>
   rowArrays g' = rowArrays g \<and> intArrays g' = intArrays g
   \<and> (\<exists>a l. s = Slice a l \<and> (\<forall>b. b \<noteq> a \<longrightarrow> nodeArrays g' ! b = nodeArrays g ! b))"
  by (cases s) (auto split: if_splits)

lemma setRow_other:
  "setRow g s i r = Some g' \<Longrightarrow>
   nodeArrays g' = nodeArrays g \<and> intArrays g' = intArrays g
   \<and> (\<exists>a l. s = Slice a l \<and> (\<forall>b. b \<noteq> a \<longrightarrow> rowArrays g' ! b = rowArrays g ! b))"
  by (cases s) (auto split: if_splits)

lemma setIntAt_other:
  "setIntAt g s k v = Some g' \<Longrightarrow>
   rowArrays g' = rowArrays g \<and> nodeArrays g' = nodeArrays g
   \<and> (\<exists>a l. s = Slice a l \<and> (\<forall>b. b \<noteq> a \<longrightarrow> intArrays g' ! b = intArrays g ! b))"
  by (cases s) (auto split: if_splits)

lemma afterClone_old:
  "a < length (rowArrays h) \<Longrightarrow> rowArrays (afterClone h p) ! a = rowArrays h ! a"
  "b < length (nodeArrays h) \<Longrightarrow> nodeArrays (afterClone h p) ! b = nodeArrays h ! b"
  "c < length (intArrays h) \<Longrightarrow> intArrays (afterClone h p) ! c = intArrays h ! c"
  by (simp_all add: afterClone_def nth_append)

lemma getRow_cloneOf:
  assumes "getRow (afterClone h p) (ReplicasH (cloneOf h p)) i = Some row"
  shows "\<exists>l. row = Slice (length (nodeArrays h) + i) l"
  using assms
  by (auto simp: cloneOf_def afterClone_def clonedRows_def split: if_splits)

lemma getRow_old:
  assumes wf: "wellformed h p"
    and get: "getRow (afterClone h p) (ReplicasH p) i = Some row"
  shows "allocated (nodeArrays h) row"
proof -
  from wf have alloc: "allocated (rowArrays h) (ReplicasH p)"
    and arows: "list_all (allocated (nodeArrays h)) (rowsOf h (ReplicasH p))"
    by (simp_all add: wellformed_def)
  from get alloc obtain a n where s: "ReplicasH p = Slice a n" and i: "i < n"
    and a: "a < length (rowArrays h)" and n: "n \<le> length (rowArrays h ! a)"
    and row: "row = rowArrays (afterClone h p) ! a ! i"
    by (cases "ReplicasH p") (auto split: if_splits)
  from row a have "row = rowArrays h ! a ! i"
    by (simp add: afterClone_old)
  with s i n have "row = rowsOf h (ReplicasH p) ! i" and "i < length (rowsOf h (ReplicasH p))"
    by simp_all
  with arows show ?thesis
    by (simp add: list_all_length)
qed

text \<open>
  C7. For a \<open>Partitions\<close> \<open>p\<close> whose slices are allocated in the store, \<open>clone\<close>
  returns a struct \<open>c\<close> whose grid, regimes and \<open>SCMode\<close> are those of \<open>p\<close>, and
  leaves \<open>p\<close> as it was. After it, a write to a slot of the grid of \<open>c\<close>, to a row
  of \<open>c\<close> or to a regime of \<open>c\<close> leaves the contents of \<open>p\<close> unchanged, and such a
  write to \<open>p\<close> leaves the contents of \<open>c\<close> unchanged.
\<close>

theorem clone_independent:
  assumes wf: "wellformed h p"
  shows "\<exists>h' c. clone h p = Some (h', c)
     \<and> contents h' c = contents h p
     \<and> contents h' p = contents h p
     \<and> (\<forall>i j v h''. writeNode h' c i j v = Some h'' \<longrightarrow> contents h'' p = contents h p)
     \<and> (\<forall>i r h''. writeRow h' c i r = Some h'' \<longrightarrow> contents h'' p = contents h p)
     \<and> (\<forall>k v h''. writeRegime h' c k v = Some h'' \<longrightarrow> contents h'' p = contents h p)
     \<and> (\<forall>i j v h''. writeNode h' p i j v = Some h'' \<longrightarrow> contents h'' c = contents h p)
     \<and> (\<forall>i r h''. writeRow h' p i r = Some h'' \<longrightarrow> contents h'' c = contents h p)
     \<and> (\<forall>k v h''. writeRegime h' p k v = Some h'' \<longrightarrow> contents h'' c = contents h p)"
proof -
  let ?A = "afterClone h p"
  let ?c = "cloneOf h p"
  from wf have alloc: "allocated (rowArrays h) (ReplicasH p)"
    and areg: "allocated (intArrays h) (regimesH p)"
    by (simp_all add: wellformed_def)
  have c_eq: "contents ?A ?c = contents h p"
    by (rule contents_cloneOf [OF wf])
  have p_eq: "contents ?A p = contents h p"
    by (rule contents_agree_old [OF wf]) (simp_all add: afterClone_old)
  have c1: "contents g p = contents h p" if "writeNode ?A ?c i j v = Some g" for i j v g
  proof -
    from that obtain row where get: "getRow ?A (ReplicasH ?c) i = Some row"
      and set: "setNodeAt ?A row j v = Some g"
      by (auto simp: writeNode_def split: option.splits)
    from getRow_cloneOf [OF get] obtain l where row: "row = Slice (length (nodeArrays h) + i) l" ..
    from setNodeAt_other [OF set] row show ?thesis
      by (intro contents_agree_old [OF wf]) (auto simp: afterClone_old)
  qed
  have c2: "contents g p = contents h p" if "writeRow ?A ?c i r = Some g" for i r g
  proof -
    from that have set: "setRow ?A (Slice (length (rowArrays h)) (len (ReplicasH p))) i r = Some g"
      by (simp add: writeRow_def cloneOf_def)
    from setRow_other [OF set] show ?thesis
      by (intro contents_agree_old [OF wf]) (auto simp: afterClone_old)
  qed
  have c3: "contents g p = contents h p" if "writeRegime ?A ?c k v = Some g" for k v g
  proof -
    from that have set: "setIntAt ?A (Slice (length (intArrays h)) (len (regimesH p))) k v = Some g"
      by (simp add: writeRegime_def cloneOf_def)
    from setIntAt_other [OF set] show ?thesis
      by (intro contents_agree_old [OF wf]) (auto simp: afterClone_old)
  qed
  have p1: "contents g ?c = contents h p" if "writeNode ?A p i j v = Some g" for i j v g
  proof -
    from that obtain row where get: "getRow ?A (ReplicasH p) i = Some row"
      and set: "setNodeAt ?A row j v = Some g"
      by (auto simp: writeNode_def split: option.splits)
    from getRow_old [OF wf get] have arow: "allocated (nodeArrays h) row" .
    from setNodeAt_other [OF set] arow have "contents g ?c = contents ?A ?c"
      by (intro contents_agree_new) auto
    with c_eq show ?thesis by simp
  qed
  have p2: "contents g ?c = contents h p" if "writeRow ?A p i r = Some g" for i r g
  proof -
    from that have set: "setRow ?A (ReplicasH p) i r = Some g"
      by (simp add: writeRow_def)
    from setRow_other [OF set] alloc have "contents g ?c = contents ?A ?c"
      by (intro contents_agree_new) auto
    with c_eq show ?thesis by simp
  qed
  have p3: "contents g ?c = contents h p" if "writeRegime ?A p k v = Some g" for k v g
  proof -
    from that have set: "setIntAt ?A (regimesH p) k v = Some g"
      by (simp add: writeRegime_def)
    from setIntAt_other [OF set] areg have "contents g ?c = contents ?A ?c"
      by (intro contents_agree_new) auto
    with c_eq show ?thesis by simp
  qed
  from clone_result [OF wf] c_eq p_eq c1 c2 c3 p1 p2 p3 show ?thesis
    by blast
qed


theorem clone_independent_witness:
  "wellformed \<lparr>rowArrays = [[Slice 0 2]], nodeArrays = [[Some 1, None]], intArrays = [[3, 4]]\<rparr>
     \<lparr>ReplicasH = Slice 0 1, SCModeH = True, regimesH = Slice 0 2\<rparr>
   \<and> clone \<lparr>rowArrays = [[Slice 0 2]], nodeArrays = [[Some 1, None]], intArrays = [[3, 4]]\<rparr>
         \<lparr>ReplicasH = Slice 0 1, SCModeH = True, regimesH = Slice 0 2\<rparr>
       = Some (\<lparr>rowArrays = [[Slice 0 2], [Slice 1 2]],
                 nodeArrays = [[Some 1, None], [Some 1, None]],
                 intArrays = [[3, 4], [3, 4]]\<rparr>,
               \<lparr>ReplicasH = Slice 1 1, SCModeH = True, regimesH = Slice 1 2\<rparr>)
   \<and> writeNode \<lparr>rowArrays = [[Slice 0 2], [Slice 1 2]],
                 nodeArrays = [[Some 1, None], [Some 1, None]],
                 intArrays = [[3, 4], [3, 4]]\<rparr>
         \<lparr>ReplicasH = Slice 1 1, SCModeH = True, regimesH = Slice 1 2\<rparr> 0 1 (Some 9)
       = Some \<lparr>rowArrays = [[Slice 0 2], [Slice 1 2]],
                nodeArrays = [[Some 1, None], [Some 1, Some 9]],
                intArrays = [[3, 4], [3, 4]]\<rparr>
   \<and> contents \<lparr>rowArrays = [[Slice 0 2], [Slice 1 2]],
                nodeArrays = [[Some 1, None], [Some 1, Some 9]],
                intArrays = [[3, 4], [3, 4]]\<rparr>
         \<lparr>ReplicasH = Slice 0 1, SCModeH = True, regimesH = Slice 0 2\<rparr>
       = \<lparr>Replicas = [[Some 1, None]], SCMode = True, regimes = [3, 4]\<rparr>
   \<and> writeRegime \<lparr>rowArrays = [[Slice 0 2], [Slice 1 2]],
                 nodeArrays = [[Some 1, None], [Some 1, None]],
                 intArrays = [[3, 4], [3, 4]]\<rparr>
         \<lparr>ReplicasH = Slice 0 1, SCModeH = True, regimesH = Slice 0 2\<rparr> 1 7
       = Some \<lparr>rowArrays = [[Slice 0 2], [Slice 1 2]],
                nodeArrays = [[Some 1, None], [Some 1, None]],
                intArrays = [[3, 7], [3, 4]]\<rparr>
   \<and> contents \<lparr>rowArrays = [[Slice 0 2], [Slice 1 2]],
                nodeArrays = [[Some 1, None], [Some 1, None]],
                intArrays = [[3, 7], [3, 4]]\<rparr>
         \<lparr>ReplicasH = Slice 1 1, SCModeH = True, regimesH = Slice 1 2\<rparr>
       = \<lparr>Replicas = [[Some 1, None]], SCMode = True, regimes = [3, 4]\<rparr>"
  using clone_independent
    [of "\<lparr>rowArrays = [[Slice 0 2]], nodeArrays = [[Some 1, None]], intArrays = [[3, 4]]\<rparr>"
        "\<lparr>ReplicasH = Slice 0 1, SCModeH = True, regimesH = Slice 0 2\<rparr>"]
  by (simp add: wellformed_def clone_def makeRows_def makeNodes_def makeInts_def
        cloneRows.simps writeNode_def writeRegime_def contents_def Let_def)

end
